theory Spec2Isabelle
  imports Main "HOL-Library.Sublist" "HOL-Library.Multiset"
begin

section \<open>Python strings and paths\<close>

text \<open>
  Strings are modelled as \<open>string\<close> (lists of 8-bit characters); the model covers
  ASCII text, for which \<open>str.lower\<close> maps \<open>A..Z\<close> to \<open>a..z\<close> and leaves every
  other character alone.
\<close>

fun lower_char :: "char \<Rightarrow> char" where
  "lower_char (Char b0 b1 b2 b3 b4 b5 b6 b7) =
     (let n = (of_char (Char b0 b1 b2 b3 b4 b5 b6 b7) :: nat)
      in if 65 \<le> n \<and> n \<le> 90
         then Char b0 b1 b2 b3 b4 True b6 b7   \<comment> \<open>adds 32: bit 5 is clear on \<open>A..Z\<close>\<close>
         else Char b0 b1 b2 b3 b4 b5 b6 b7)"

definition lower :: "string \<Rightarrow> string" where
  "lower s = map lower_char s"

text \<open>\<open>s.split(sep)\<close> for a one-character separator: never empty, \<open>''.split('.') == ['']\<close>.\<close>

fun split :: "char \<Rightarrow> string \<Rightarrow> string list" where
  "split sep [] = [[]]"
| "split sep (c # cs) =
     (if c = sep then [] # split sep cs
      else (case split sep cs of
              [] \<Rightarrow> [[c]]
            | p # ps \<Rightarrow> (c # p) # ps))"

text \<open>\<open>sub in s\<close> on strings: \<open>sub\<close> occurs in \<open>s\<close> as a contiguous block.\<close>

fun py_in :: "string \<Rightarrow> string \<Rightarrow> bool" where
  "py_in sub [] = (sub = [])"
| "py_in sub (c # cs) = (prefix sub (c # cs) \<or> py_in sub cs)"

text \<open>\<open>s.startswith(p)\<close>.\<close>

definition startswith :: "string \<Rightarrow> string \<Rightarrow> bool" where
  "startswith s p = prefix p s"

text \<open>
  A \<open>pathlib\<close> path is the list of its parts. \<open>str(path)\<close> joins the parts with \<open>/\<close>;
  an absolute path has the part \<open>/\<close> first; the empty path prints as \<open>.\<close>.
\<close>

type_synonym path = "string list"

fun join :: "string \<Rightarrow> string list \<Rightarrow> string" where
  "join sep [] = []"
| "join sep [p] = p"
| "join sep (p # q # ps) = p @ sep @ join sep (q # ps)"

definition path_str :: "path \<Rightarrow> string" where
  "path_str ps =
     (case ps of
        [] \<Rightarrow> ''.''
      | p # rest \<Rightarrow> if p = ''/'' then ''/'' @ join ''/'' rest else join ''/'' ps)"

section \<open>Errors and syntax trees\<close>

datatype error = ValueError | ParseError | AttributeError | NotADirectoryError

text \<open>
  The part of a Python syntax tree that the validators inspect. Expression nodes keep
  only what the checks look at; every other node kind is \<open>Other\<close> with its child
  nodes (a module is \<open>Other body\<close>). Expressions never contain statements, so
  leaving them out of the child lists keeps the order in which \<open>ast.walk\<close> yields
  the remaining nodes.
\<close>

datatype expr = Name string | Attribute expr string | Call expr | Other_expr

datatype node =
    Import "string list"
  | ImportFrom "string option"
  | ClassDef string "expr list" "expr list" "node list"
  | FunctionDef string "expr list" "node list"
  | Assign "expr list"
  | AnnAssign expr
  | Other "node list"

fun iter_child_nodes :: "node \<Rightarrow> node list" where
  "iter_child_nodes (ClassDef name bases decorator_list body) = body"
| "iter_child_nodes (FunctionDef name decorator_list body) = body"
| "iter_child_nodes (Other body) = body"
| "iter_child_nodes n = []"

text \<open>\<open>ast.walk\<close>: breadth-first, from a queue of nodes still to visit.\<close>

function walk_todo :: "node list \<Rightarrow> node list" where
  "walk_todo [] = []"
| "walk_todo (n # todo) = n # walk_todo (todo @ iter_child_nodes n)"
  by pat_completeness auto
termination
proof (relation "measure (\<lambda>todo. sum_list (map (\<lambda>n. Suc (size n)) todo))")
  show "wf (measure (\<lambda>todo. sum_list (map (\<lambda>n. Suc (size n)) todo)))" by simp
next
  fix n :: node and todo :: "node list"
  have count: "sum_list (map (\<lambda>n. Suc (size n)) ns) = sum_list (map size ns) + length ns"
    for ns :: "node list"
    by (induction ns) simp_all
  have "sum_list (map (\<lambda>n. Suc (size n)) (iter_child_nodes n)) < Suc (size n)"
    by (cases n) (simp_all add: size_list_conv_sum_list count)
  then show "(todo @ iter_child_nodes n, n # todo)
               \<in> measure (\<lambda>todo. sum_list (map (\<lambda>n. Suc (size n)) todo))"
    by simp
qed

definition walk :: "node \<Rightarrow> node list" where
  "walk tree = walk_todo [tree]"

section \<open>Python sets\<close>

text \<open>
  A Python \<open>set\<close> of strings is modelled by the list of the elements added to it, in
  the order of the \<open>add\<close> calls, together with the order in which the interpreter
  iterates over the set. That order depends on the strings' hash values, which CPython
  salts per process; so it is a parameter \<open>set_iter\<close> of the model, of which only
  \<open>set_iteration\<close> is known: every element is visited once.
\<close>

definition set_iteration :: "('a list \<Rightarrow> 'a list) \<Rightarrow> bool" where
  "set_iteration set_iter \<longleftrightarrow> (\<forall>xs. distinct (set_iter xs) \<and> set (set_iter xs) = set xs)"

section \<open>validate\_imports.py: ImportValidator\<close>

text \<open>The dictionary \<open>LAYERS\<close>, in insertion order.\<close>

definition LAYERS :: "(string \<times> int) list" where
  "LAYERS =
     [(''domain'', 0),
      (''application'', 1),
      (''infrastructure'', 2),
      (''frameworks'', 3),
      (''framework'', 3),
      (''adapters'', 2),
      (''use_cases'', 1),
      (''entities'', 0)]"

text \<open>A violation is the tuple (relative file path, layer of the file, imported layer).\<close>

type_synonym violation = "string \<times> string \<times> string"

text \<open>\<open>file_path.relative_to(root_path)\<close> raises \<open>ValueError\<close> outside the root.\<close>

definition relative_to :: "path \<Rightarrow> path \<Rightarrow> error + path" where
  "relative_to file_path root_path =
     (if prefix root_path file_path then Inr (drop (length root_path) file_path)
      else Inl ValueError)"

text \<open>The loop of \<open>_get_layer\<close> over the parts of the relative path.\<close>

fun get_layer_parts :: "string list \<Rightarrow> int option" where
  "get_layer_parts [] = None"
| "get_layer_parts (part # parts) =
     (let layer_name = lower part
      in case map_of LAYERS layer_name of
           Some rank \<Rightarrow> Some rank
         | None \<Rightarrow> get_layer_parts parts)"

definition get_layer :: "path \<Rightarrow> path \<Rightarrow> error + int option" where
  "get_layer root_path file_path =
     (case relative_to file_path root_path of
        Inl e \<Rightarrow> Inl e
      | Inr relative_path \<Rightarrow> Inr (get_layer_parts relative_path))"

text \<open>
  \<open>_extract_imports\<close>: the module names added to the set, in the order of
  \<open>ast.walk\<close>; \<open>from . import x\<close> has no module and adds nothing.
\<close>

fun imports_of_node :: "node \<Rightarrow> string list" where
  "imports_of_node (Import names) = names"
| "imports_of_node (ImportFrom module) =
     (case module of None \<Rightarrow> [] | Some m \<Rightarrow> if m = [] then [] else [m])"
| "imports_of_node n = []"

definition extract_imports :: "node \<Rightarrow> string list" where
  "extract_imports tree = concat (map imports_of_node (walk tree))"

definition is_project_import :: "string \<Rightarrow> bool" where
  "is_project_import import_path =
     (let first_part = lower (hd (split CHR ''.'' import_path))
      in map_of LAYERS first_part \<noteq> None)"

fun get_import_layer_parts :: "string list \<Rightarrow> int option" where
  "get_import_layer_parts [] = None"
| "get_import_layer_parts (part # parts) =
     (let layer_name = lower part
      in case map_of LAYERS layer_name of
           Some rank \<Rightarrow> Some rank
         | None \<Rightarrow> get_import_layer_parts parts)"

definition get_import_layer :: "string \<Rightarrow> int option" where
  "get_import_layer import_path = get_import_layer_parts (split CHR ''.'' import_path)"

text \<open>
  Decimal text of an integer, for the fallback name \<open>Layer <index>\<close>;
  \<open>digit_char\<close> is only called below ten.
\<close>

definition digit_char :: "nat \<Rightarrow> char" where
  "digit_char n = ''0123456789'' ! n"

function str_nat :: "nat \<Rightarrow> string" where
  "str_nat n = (if n < 10 then [digit_char n] else str_nat (n div 10) @ [digit_char (n mod 10)])"
  by pat_completeness auto
termination
  by (relation "measure (\<lambda>n. n)") auto

definition str_int :: "int \<Rightarrow> string" where
  "str_int i = (if i < 0 then ''-'' @ str_nat (nat (- i)) else str_nat (nat i))"

fun get_layer_name_items :: "(string \<times> int) list \<Rightarrow> int \<Rightarrow> string option" where
  "get_layer_name_items [] layer_index = None"
| "get_layer_name_items ((name, index) # items) layer_index =
     (if index = layer_index
         \<and> name \<in> set [''domain'', ''application'', ''infrastructure'', ''frameworks'']
      then Some name
      else get_layer_name_items items layer_index)"

definition get_layer_name :: "int \<Rightarrow> string" where
  "get_layer_name layer_index =
     (case get_layer_name_items LAYERS layer_index of
        Some name \<Rightarrow> name
      | None \<Rightarrow> ''Layer '' @ str_int layer_index)"

definition check_import ::
  "path \<Rightarrow> path \<Rightarrow> int \<Rightarrow> string \<Rightarrow> violation list \<Rightarrow> error + violation list" where
  "check_import root_path file_path file_layer import_path violations =
     (if \<not> is_project_import import_path then Inr violations
      else case get_import_layer import_path of
             None \<Rightarrow> Inr violations
           | Some import_layer \<Rightarrow>
               if import_layer > file_layer
               then (case relative_to file_path root_path of
                       Inl e \<Rightarrow> Inl e
                     | Inr relative_path \<Rightarrow>
                         Inr (violations @
                              [(path_str relative_path,
                                get_layer_name file_layer,
                                get_layer_name import_layer)]))
               else Inr violations)"

text \<open>
  The loop \<open>for import_path in imports\<close>: an exception leaves the loop with the
  violations appended so far.
\<close>

fun check_imports ::
  "path \<Rightarrow> path \<Rightarrow> int \<Rightarrow> string list \<Rightarrow> violation list \<Rightarrow> error option \<times> violation list" where
  "check_imports root_path file_path file_layer [] violations = (None, violations)"
| "check_imports root_path file_path file_layer (import_path # imports) violations =
     (case check_import root_path file_path file_layer import_path violations of
        Inl e \<Rightarrow> (Some e, violations)
      | Inr violations' \<Rightarrow> check_imports root_path file_path file_layer imports violations')"

text \<open>
  \<open>_validate_file\<close>. \<open>parse\<close> stands for opening, reading and parsing the file; any
  exception inside the \<open>try\<close> block only prints a warning.
\<close>

definition import_validate_file ::
  "(string list \<Rightarrow> string list) \<Rightarrow> (path \<Rightarrow> error + node) \<Rightarrow> path \<Rightarrow> path
     \<Rightarrow> violation list \<Rightarrow> violation list" where
  "import_validate_file set_iter parse root_path file_path violations =
     (if py_in ''__pycache__'' (path_str file_path) \<or> py_in ''test'' (path_str file_path)
      then violations
      else case parse file_path of
             Inl e \<Rightarrow> violations
           | Inr tree \<Rightarrow>
               (case get_layer root_path file_path of
                  Inl e \<Rightarrow> violations
                | Inr None \<Rightarrow> violations
                | Inr (Some file_layer) \<Rightarrow>
                    snd (check_imports root_path file_path file_layer
                           (set_iter (extract_imports tree)) violations)))"

fun import_validate_files ::
  "(string list \<Rightarrow> string list) \<Rightarrow> (path \<Rightarrow> error + node) \<Rightarrow> path \<Rightarrow> path list
     \<Rightarrow> violation list \<Rightarrow> violation list" where
  "import_validate_files set_iter parse root_path [] violations = violations"
| "import_validate_files set_iter parse root_path (py_file # py_files) violations =
     import_validate_files set_iter parse root_path py_files
       (import_validate_file set_iter parse root_path py_file violations)"

text \<open>\<open>validate\<close> returns whether no violation was found; the list is kept in the object.\<close>

definition import_validate ::
  "(string list \<Rightarrow> string list) \<Rightarrow> (path \<Rightarrow> error + node) \<Rightarrow> path \<Rightarrow> path list
     \<Rightarrow> bool \<times> violation list" where
  "import_validate set_iter parse root_path py_files =
     (let violations = import_validate_files set_iter parse root_path py_files []
      in (violations = [], violations))"

section \<open>validate\_imports.py: LayerStructureValidator and main\<close>

text \<open>
  What the validators read of the file system: whether a path exists, the entries of a
  directory (name, and whether the entry is a directory; \<open>iterdir\<close> raises on a path
  that is not a directory), the Python files found under a root by \<open>rglob\<close>, in
  discovery order, and the result of opening, reading and parsing a file.
\<close>

record filesystem =
  path_exists :: "path \<Rightarrow> bool"
  iterdir :: "path \<Rightarrow> error + (string \<times> bool) list"
  rglob_py :: "path \<Rightarrow> path list"
  parse_file :: "path \<Rightarrow> error + node"

fun suspicious_issues :: "string \<Rightarrow> string list \<Rightarrow> string list \<Rightarrow> string list" where
  "suspicious_issues layer_name suspicious [] = []"
| "suspicious_issues layer_name suspicious (subdir # subdirs) =
     (if lower subdir \<in> set suspicious
      then (if layer_name = ''domain''
            then ''Domain layer contains '' @ [CHR 0x27] @ subdir @ [CHR 0x27]
                   @ '' - this might belong in an outer layer''
            else ''Application layer contains '' @ [CHR 0x27] @ subdir @ [CHR 0x27]
                   @ '' - this might belong in another layer'')
           # suspicious_issues layer_name suspicious subdirs
      else suspicious_issues layer_name suspicious subdirs)"

definition check_layer_contents ::
  "filesystem \<Rightarrow> string \<Rightarrow> path \<Rightarrow> string list \<Rightarrow> error + string list" where
  "check_layer_contents fs layer_name layer_path issues =
     (case iterdir fs layer_path of
        Inl e \<Rightarrow> Inl e
      | Inr entries \<Rightarrow>
          (let subdirs = map fst (filter (\<lambda>(name, is_dir). is_dir \<and> \<not> startswith name ''__'') entries)
           in if layer_name = ''domain''
              then Inr (issues @ suspicious_issues layer_name
                          [''controllers'', ''routers'', ''api'', ''database'', ''orm''] subdirs)
              else if layer_name = ''application''
              then Inr (issues @ suspicious_issues layer_name
                          [''models'', ''database'', ''orm'', ''api'', ''controllers''] subdirs)
              else Inr issues))"

fun structure_validate_layers ::
  "filesystem \<Rightarrow> path \<Rightarrow> string list \<Rightarrow> string list \<Rightarrow> error + string list" where
  "structure_validate_layers fs root_path [] issues = Inr issues"
| "structure_validate_layers fs root_path (layer_name # layer_names) issues =
     (let layer_path = root_path @ [layer_name]
      in if path_exists fs layer_path
         then (case check_layer_contents fs layer_name layer_path issues of
                 Inl e \<Rightarrow> Inl e
               | Inr issues' \<Rightarrow> structure_validate_layers fs root_path layer_names issues')
         else structure_validate_layers fs root_path layer_names issues)"

text \<open>\<open>LayerStructureValidator.validate\<close>: whether no issue was found, and the issues.\<close>

definition structure_validate :: "filesystem \<Rightarrow> path \<Rightarrow> error + bool \<times> string list" where
  "structure_validate fs root_path =
     (case structure_validate_layers fs root_path
             [''domain'', ''application'', ''infrastructure'', ''frameworks''] [] of
        Inl e \<Rightarrow> Inl e
      | Inr issues \<Rightarrow> Inr (issues = [], issues))"

text \<open>
  The root path of \<open>main\<close>: the command-line argument when there is one, else the first
  of \<open>src\<close>, \<open>app\<close> and \<open>.\<close> that exists; \<open>None\<close> when the loop finds none and
  the program exits with status 1.
\<close>

definition find_root :: "filesystem \<Rightarrow> path option \<Rightarrow> path option" where
  "find_root fs argv1 =
     (case argv1 of
        Some root_path \<Rightarrow> Some root_path
      | None \<Rightarrow> find (path_exists fs) [[''src''], [''app''], []])"

text \<open>
  \<open>main\<close> of validate\_imports.py, as the exit status of the process. An exception that
  nothing catches ends the interpreter with status 1.
\<close>

definition main :: "(string list \<Rightarrow> string list) \<Rightarrow> filesystem \<Rightarrow> path option \<Rightarrow> int" where
  "main set_iter fs argv1 =
     (case find_root fs argv1 of
        None \<Rightarrow> 1
      | Some root_path \<Rightarrow>
          if \<not> path_exists fs root_path then 1
          else (let import_valid =
                      fst (import_validate set_iter (parse_file fs) root_path (rglob_py fs root_path))
                in case structure_validate fs root_path of
                     Inl e \<Rightarrow> 1
                   | Inr (structure_valid, issues) \<Rightarrow>
                       if import_valid \<and> structure_valid then 0 else 1))"

section \<open>validate\_structure.py\<close>

subsection \<open>More of strings and paths\<close>

definition is_upper_char :: "char \<Rightarrow> bool" where
  "is_upper_char c = (let n = (of_char c :: nat) in 65 \<le> n \<and> n \<le> 90)"

definition is_lower_char :: "char \<Rightarrow> bool" where
  "is_lower_char c = (let n = (of_char c :: nat) in 97 \<le> n \<and> n \<le> 122)"

definition is_digit_char :: "char \<Rightarrow> bool" where
  "is_digit_char c = (let n = (of_char c :: nat) in 48 \<le> n \<and> n \<le> 57)"

fun upper_char :: "char \<Rightarrow> char" where
  "upper_char (Char b0 b1 b2 b3 b4 b5 b6 b7) =
     (if is_lower_char (Char b0 b1 b2 b3 b4 b5 b6 b7)
      then Char b0 b1 b2 b3 b4 False b6 b7   \<comment> \<open>subtracts 32: bit 5 is set on \<open>a..z\<close>\<close>
      else Char b0 b1 b2 b3 b4 b5 b6 b7)"

definition upper :: "string \<Rightarrow> string" where
  "upper s = map upper_char s"

text \<open>\<open>s.isupper()\<close>: some cased character, and no lowercase one.\<close>

definition isupper :: "string \<Rightarrow> bool" where
  "isupper s \<longleftrightarrow> list_ex is_upper_char s \<and> \<not> list_ex is_lower_char s"

definition endswith :: "string \<Rightarrow> string \<Rightarrow> bool" where
  "endswith s p = suffix p s"

text \<open>
  \<open>s.replace(old, new)\<close>: the occurrences of \<open>old\<close> are replaced from the left, without
  overlap; an empty \<open>old\<close> matches before every character and at the end.
\<close>

function replace :: "string \<Rightarrow> string \<Rightarrow> string \<Rightarrow> string" where
  "replace old new s =
     (if old = [] then new @ concat (map (\<lambda>c. c # new) s)
      else if s = [] then []
      else if prefix old s then new @ replace old new (drop (length old) s)
      else hd s # replace old new (tl s))"
  by pat_completeness auto
termination
  by (relation "measure (\<lambda>(old, new, s). length s)") auto

text \<open>\<open>s.rfind(c)\<close> for one character, \<open>None\<close> for \<open>-1\<close>.\<close>

fun rfind :: "char \<Rightarrow> string \<Rightarrow> nat option" where
  "rfind c [] = None"
| "rfind c (x # xs) =
     (case rfind c xs of
        Some i \<Rightarrow> Some (Suc i)
      | None \<Rightarrow> if x = c then Some 0 else None)"

text \<open>\<open>path.name\<close> and \<open>path.stem\<close>: the last part, and the last part without its suffix.\<close>

definition path_name :: "path \<Rightarrow> string" where
  "path_name ps = (if ps = [] \<or> ps = [''/''] then [] else last ps)"

definition path_stem :: "path \<Rightarrow> string" where
  "path_stem ps =
     (let name = path_name ps
      in case rfind CHR ''.'' name of
           None \<Rightarrow> name
         | Some i \<Rightarrow> if 0 < i \<and> i < length name - 1 then take i name else name)"

text \<open>
  A \<open>pathlib\<close> path has no method \<open>lower\<close>: \<open>file_path.lower()\<close> raises
  \<open>AttributeError\<close>, whatever the path.
\<close>

definition path_lower :: "path \<Rightarrow> error + string" where
  "path_lower file_path = Inl AttributeError"

subsection \<open>NamingConventionValidator\<close>

text \<open>
  The three regular expressions, matched with \<open>re.match\<close> against names that cannot
  hold a newline: \<open>^[A-Z][a-zA-Z0-9]*$\<close>, \<open>^[a-z_][a-z0-9_]*$\<close>, \<open>^[A-Z][A-Z0-9_]*$\<close>.
\<close>

definition is_pascal_case :: "string \<Rightarrow> bool" where
  "is_pascal_case name =
     (case name of
        [] \<Rightarrow> False
      | c # cs \<Rightarrow> is_upper_char c
                  \<and> list_all (\<lambda>c. is_lower_char c \<or> is_upper_char c \<or> is_digit_char c) cs)"

definition is_snake_case :: "string \<Rightarrow> bool" where
  "is_snake_case name =
     (case name of
        [] \<Rightarrow> False
      | c # cs \<Rightarrow> (is_lower_char c \<or> c = CHR ''_'')
                  \<and> list_all (\<lambda>c. is_lower_char c \<or> is_digit_char c \<or> c = CHR ''_'') cs)"

definition is_upper_snake_case :: "string \<Rightarrow> bool" where
  "is_upper_snake_case name =
     (case name of
        [] \<Rightarrow> False
      | c # cs \<Rightarrow> is_upper_char c
                  \<and> list_all (\<lambda>c. is_upper_char c \<or> is_digit_char c \<or> c = CHR ''_'') cs)"

fun class_naming_issues :: "path \<Rightarrow> node \<Rightarrow> string list" where
  "class_naming_issues file_path (ClassDef name bases decorator_list body) =
     (if \<not> is_pascal_case name
      then [path_str file_path @ '': Class '' @ [CHR 0x27] @ name @ [CHR 0x27]
              @ '' should use PascalCase'']
      else [])"
| "class_naming_issues file_path n = []"

fun function_naming_issues :: "path \<Rightarrow> node \<Rightarrow> string list" where
  "function_naming_issues file_path (FunctionDef name decorator_list body) =
     (if startswith name ''__'' \<and> endswith name ''__'' then []
      else if \<not> is_snake_case name
      then [path_str file_path @ '': Function '' @ [CHR 0x27] @ name @ [CHR 0x27]
              @ '' should use snake_case'']
      else [])"
| "function_naming_issues file_path n = []"

fun target_naming_issues :: "path \<Rightarrow> expr \<Rightarrow> string list" where
  "target_naming_issues file_path (Name ident) =
     (if isupper ident \<and> py_in ''_'' ident
      then (if \<not> is_upper_snake_case ident
            then [path_str file_path @ '': Constant '' @ [CHR 0x27] @ ident @ [CHR 0x27]
                    @ '' should use UPPER_SNAKE_CASE'']
            else [])
      else [])"
| "target_naming_issues file_path e = []"

fun constant_naming_issues :: "path \<Rightarrow> node \<Rightarrow> string list" where
  "constant_naming_issues file_path (Assign targets) =
     concat (map (target_naming_issues file_path) targets)"
| "constant_naming_issues file_path n = []"

definition check_classes :: "node \<Rightarrow> path \<Rightarrow> string list \<Rightarrow> string list" where
  "check_classes tree file_path issues =
     issues @ concat (map (class_naming_issues file_path) (walk tree))"

definition check_functions :: "node \<Rightarrow> path \<Rightarrow> string list \<Rightarrow> string list" where
  "check_functions tree file_path issues =
     issues @ concat (map (function_naming_issues file_path) (walk tree))"

definition check_constants :: "node \<Rightarrow> path \<Rightarrow> string list \<Rightarrow> string list" where
  "check_constants tree file_path issues =
     issues @ concat (map (constant_naming_issues file_path) (walk tree))"

definition naming_validate_file ::
  "(path \<Rightarrow> error + node) \<Rightarrow> path \<Rightarrow> string list \<Rightarrow> string list" where
  "naming_validate_file parse file_path issues =
     (if py_in ''test'' (path_str file_path) then issues
      else case parse file_path of
             Inl e \<Rightarrow> issues
           | Inr tree \<Rightarrow>
               check_constants tree file_path
                 (check_functions tree file_path
                    (check_classes tree file_path issues)))"

subsection \<open>EncapsulationValidator\<close>

fun is_exempt_base :: "expr \<Rightarrow> bool" where
  "is_exempt_base (Name ident) = (ident \<in> set [''Protocol'', ''BaseModel''])"
| "is_exempt_base e = False"

fun is_dataclass_decorator :: "expr \<Rightarrow> bool" where
  "is_dataclass_decorator (Name ident) = (ident = ''dataclass'')"
| "is_dataclass_decorator (Call (Name ident)) = (ident = ''dataclass'')"
| "is_dataclass_decorator e = False"

fun is_protocol_or_dataclass :: "node \<Rightarrow> bool" where
  "is_protocol_or_dataclass (ClassDef name bases decorator_list body) =
     (list_ex is_exempt_base bases \<or> list_ex is_dataclass_decorator decorator_list)"
| "is_protocol_or_dataclass n = False"

fun public_attribute_issues :: "path \<Rightarrow> string \<Rightarrow> node \<Rightarrow> string list" where
  "public_attribute_issues file_path class_name (AnnAssign (Name attr_name)) =
     (if \<not> startswith attr_name ''_'' \<and> attr_name \<noteq> upper attr_name
      then [path_str file_path @ '': Class '' @ [CHR 0x27] @ class_name @ [CHR 0x27]
              @ '' has public attribute '' @ [CHR 0x27] @ attr_name @ [CHR 0x27] @ ''. ''
              @ ''Consider making it private with underscore prefix.'']
      else [])"
| "public_attribute_issues file_path class_name item = []"

text \<open>What \<open>_check_public_attributes\<close> appends for one node of the walk.\<close>

fun class_public_attributes :: "path \<Rightarrow> node \<Rightarrow> string list" where
  "class_public_attributes file_path (ClassDef name bases decorator_list body) =
     (if is_protocol_or_dataclass (ClassDef name bases decorator_list body) then []
      else concat (map (public_attribute_issues file_path name) body))"
| "class_public_attributes file_path n = []"

definition check_public_attributes :: "node \<Rightarrow> path \<Rightarrow> string list \<Rightarrow> string list" where
  "check_public_attributes tree file_path issues =
     issues @ concat (map (class_public_attributes file_path) (walk tree))"

fun is_private_target :: "expr \<Rightarrow> bool" where
  "is_private_target (Attribute v attr) = startswith attr ''_''"
| "is_private_target e = False"

fun assigns_private :: "node \<Rightarrow> bool" where
  "assigns_private (Assign targets) = list_ex is_private_target targets"
| "assigns_private n = False"

fun init_assigns_private :: "node \<Rightarrow> bool" where
  "init_assigns_private (FunctionDef name decorator_list body) =
     (name = ''__init__''
      \<and> list_ex assigns_private (walk (FunctionDef name decorator_list body)))"
| "init_assigns_private n = False"

fun has_property_decorator :: "node \<Rightarrow> bool" where
  "has_property_decorator (FunctionDef name decorator_list body) =
     list_ex (\<lambda>decorator. decorator = Name ''property'') decorator_list"
| "has_property_decorator n = False"

text \<open>
  The loop of \<open>_check_property_usage\<close> over the nodes of the walk. The condition
  \<open>has_private_attrs and not has_properties and 'entity' in file_path.lower()\<close> is
  evaluated from the left, so \<open>file_path.lower()\<close> is reached only for a class that
  has private attributes and no property; its exception leaves the loop.
\<close>

fun check_property_usage_nodes ::
  "path \<Rightarrow> node list \<Rightarrow> string list \<Rightarrow> error option \<times> string list" where
  "check_property_usage_nodes file_path [] issues = (None, issues)"
| "check_property_usage_nodes file_path (ClassDef name bases decorator_list body # nodes) issues =
     (let has_private_attrs = list_ex init_assigns_private body;
          has_properties = list_ex has_property_decorator body
      in if has_private_attrs \<and> \<not> has_properties
         then (case path_lower file_path of
                 Inl e \<Rightarrow> (Some e, issues)
               | Inr lowered \<Rightarrow>
                   if py_in ''entity'' lowered
                   then check_property_usage_nodes file_path nodes
                          (issues @
                           [path_str file_path @ '': Class '' @ [CHR 0x27] @ name @ [CHR 0x27]
                              @ '' has private attributes. ''
                              @ ''Consider using @property for controlled access.''])
                   else check_property_usage_nodes file_path nodes issues)
         else check_property_usage_nodes file_path nodes issues)"
| "check_property_usage_nodes file_path (n # nodes) issues =
     check_property_usage_nodes file_path nodes issues"

definition check_property_usage ::
  "node \<Rightarrow> path \<Rightarrow> string list \<Rightarrow> error option \<times> string list" where
  "check_property_usage tree file_path issues =
     check_property_usage_nodes file_path (walk tree) issues"

text \<open>\<open>validate_file\<close>: any exception inside the \<open>try\<close> block is passed over in silence.\<close>

definition encapsulation_validate_file ::
  "(path \<Rightarrow> error + node) \<Rightarrow> path \<Rightarrow> string list \<Rightarrow> string list" where
  "encapsulation_validate_file parse file_path issues =
     (if \<not> py_in ''domain'' (path_str file_path) \<and> \<not> py_in ''application'' (path_str file_path)
      then issues
      else if py_in ''test'' (path_str file_path) then issues
      else case parse file_path of
             Inl e \<Rightarrow> issues
           | Inr tree \<Rightarrow>
               snd (check_property_usage tree file_path
                      (check_public_attributes tree file_path issues)))"

subsection \<open>LayerContentValidator\<close>

text \<open>
  The \<open>forbidden\<close> lists of \<open>PATTERNS\<close>, by layer. Every pattern is made of lowercase
  letters and underscores, so \<open>re.search(pattern, file_name)\<close> is \<open>pattern in file_name\<close>.
\<close>

definition PATTERNS_forbidden :: "(string \<times> string list) list" where
  "PATTERNS_forbidden =
     [(''domain'',
         [''controller'', ''router'', ''endpoint'', ''api'',
          ''database'', ''sql'', ''orm'', ''http'', ''request'', ''response'']),
      (''application'',
         [''controller'', ''router'', ''endpoint'', ''sql'', ''orm'', ''http'']),
      (''infrastructure'',
         [''use_case'', ''usecase'', ''entity'', ''value_object'']),
      (''frameworks'', [])]"

fun layer_content_get_layer :: "string list \<Rightarrow> string option" where
  "layer_content_get_layer [] = None"
| "layer_content_get_layer (part # parts) =
     (if lower part \<in> set [''domain'', ''application'', ''infrastructure'', ''frameworks'',
                            ''framework'']
      then Some (if lower part \<noteq> ''framework'' then lower part else ''frameworks'')
      else layer_content_get_layer parts)"

fun forbidden_issues :: "path \<Rightarrow> string \<Rightarrow> string \<Rightarrow> string list \<Rightarrow> string list" where
  "forbidden_issues file_path layer file_name [] = []"
| "forbidden_issues file_path layer file_name (pattern # patterns) =
     (if py_in pattern file_name
      then (path_str file_path @ '': File '' @ [CHR 0x27] @ path_name file_path @ [CHR 0x27]
              @ '' contains '' @ [CHR 0x27] @ pattern @ [CHR 0x27] @ '' ''
              @ ''which shouldn'' @ [CHR 0x27] @ ''t be in '' @ layer @ '' layer'')
           # forbidden_issues file_path layer file_name patterns
      else forbidden_issues file_path layer file_name patterns)"

definition layer_content_validate_file :: "path \<Rightarrow> string list \<Rightarrow> string list" where
  "layer_content_validate_file file_path issues =
     (case layer_content_get_layer file_path of
        None \<Rightarrow> issues
      | Some layer \<Rightarrow>
          (let file_name = lower (path_stem file_path);
               forbidden = (case map_of PATTERNS_forbidden layer of
                              None \<Rightarrow> []
                            | Some patterns \<Rightarrow> patterns)
           in issues @ forbidden_issues file_path layer file_name forbidden))"

subsection \<open>UseCaseStructureValidator\<close>

fun class_name_of :: "node \<Rightarrow> string list" where
  "class_name_of (ClassDef name bases decorator_list body) = [name]"
| "class_name_of n = []"

text \<open>\<open>_get_class_names\<close>: the names added to the set, in the order of \<open>ast.walk\<close>.\<close>

definition get_class_names :: "node \<Rightarrow> string list" where
  "get_class_names tree = concat (map class_name_of (walk tree))"

fun use_case_issues :: "path \<Rightarrow> string list \<Rightarrow> string list \<Rightarrow> string list" where
  "use_case_issues file_path classes [] = []"
| "use_case_issues file_path classes (use_case # use_case_classes) =
     (let base_name = replace ''UseCase'' [] use_case;
          expected_request = base_name @ ''Request'';
          expected_response = base_name @ ''Response''
      in (if expected_request \<notin> set classes
          then [path_str file_path @ '': UseCase '' @ [CHR 0x27] @ use_case @ [CHR 0x27]
                  @ '' missing '' @ [CHR 0x27] @ expected_request @ [CHR 0x27] @ '' class'']
          else [])
         @ (if expected_response \<notin> set classes
            then [path_str file_path @ '': UseCase '' @ [CHR 0x27] @ use_case @ [CHR 0x27]
                    @ '' missing '' @ [CHR 0x27] @ expected_response @ [CHR 0x27] @ '' class'']
            else [])
         @ use_case_issues file_path classes use_case_classes)"

definition check_use_case_pattern ::
  "(string list \<Rightarrow> string list) \<Rightarrow> string list \<Rightarrow> path \<Rightarrow> string list \<Rightarrow> string list" where
  "check_use_case_pattern set_iter classes file_path issues =
     (let use_case_classes = filter (py_in ''UseCase'') (set_iter classes)
      in issues @ use_case_issues file_path classes use_case_classes)"

definition use_case_validate_file ::
  "(string list \<Rightarrow> string list) \<Rightarrow> (path \<Rightarrow> error + node) \<Rightarrow> path \<Rightarrow> string list
     \<Rightarrow> string list" where
  "use_case_validate_file set_iter parse file_path issues =
     (if \<not> py_in ''application'' (path_str file_path)
         \<or> \<not> py_in ''use_case'' (lower (path_stem file_path))
      then issues
      else if py_in ''test'' (path_str file_path) then issues
      else case parse file_path of
             Inl e \<Rightarrow> issues
           | Inr tree \<Rightarrow>
               check_use_case_pattern set_iter (get_class_names tree) file_path issues)"

section \<open>Auxiliary definitions for the statements\<close>

text \<open>
  What \<open>_check_import\<close> appends for one import of the file at the relative path
  \<open>rel\<close>, of layer rank \<open>R\<close>: no violation or one.
\<close>

definition new_violations :: "path \<Rightarrow> int \<Rightarrow> string \<Rightarrow> violation list" where
  "new_violations rel R import_path =
     (case check_import [] rel R import_path [] of Inl e \<Rightarrow> [] | Inr vs \<Rightarrow> vs)"

text \<open>An iteration order of a set other than the order of insertion.\<close>

definition reversed_iter :: "string list \<Rightarrow> string list" where
  "reversed_iter xs = rev (remdups xs)"

text \<open>Syntax trees of the examples.\<close>

definition delete_task_tree :: node where
  "delete_task_tree = Other [ClassDef ''DeleteTaskUseCase'' [] [] []]"

definition two_imports_tree :: node where
  "two_imports_tree = Other [Import [''application.x''], Import [''infrastructure.y'']]"

definition repeated_import_tree :: node where
  "repeated_import_tree =
     Other [Import [''infrastructure.db''],
            ImportFrom (Some ''infrastructure.db''),
            Import [''os'']]"

text \<open>
  An issue of the structure validators starts with the path of its file. \<open>retarget\<close>
  replaces the path \<open>old_path\<close> at the head of an issue by \<open>new_path\<close>.
\<close>

definition retarget :: "path \<Rightarrow> path \<Rightarrow> string \<Rightarrow> string" where
  "retarget new_path old_path issue =
     path_str new_path @ drop (length (path_str old_path)) issue"

definition public_attribute_tree :: node where
  "public_attribute_tree = Other [ClassDef ''User'' [] [] [AnnAssign (Name ''name'')]]"

definition outward_import_tree :: node where
  "outward_import_tree = Other [Import [''infrastructure.db''], ClassDef ''user_record'' [] [] []]"

section \<open>Facts about the helpers\<close>

lemma split_not_Nil: "split sep s \<noteq> []"
  by (induction s) (auto split: list.splits)

lemma LAYERS_rank: "map_of LAYERS name = Some rank \<Longrightarrow> rank \<in> {0, 1, 2, 3}"
  by (auto simp: LAYERS_def split: if_splits)

lemma get_import_layer_parts_eq: "get_import_layer_parts parts = get_layer_parts parts"
  by (induction parts) (auto split: option.splits)

lemma relative_to_append: "relative_to (root @ rel) root = Inr rel"
  by (simp add: relative_to_def)

lemma project_import_layer:
  "get_import_layer import_path =
     (case map_of LAYERS (lower (hd (split CHR ''.'' import_path))) of
        Some rank \<Rightarrow> Some rank
      | None \<Rightarrow> get_import_layer_parts (tl (split CHR ''.'' import_path)))"
  using split_not_Nil [of "CHR ''.''" import_path]
  by (cases "split CHR ''.'' import_path")
     (auto simp: get_import_layer_def Let_def split: option.splits)

section \<open>The dependency rule\<close>



text \<open>
  C2, as the code has it. Whether an import is project-internal is decided by its first
  dotted segment alone (\<open>_is_project_import\<close>): an import whose first segment is not a
  layer name is ignored, whatever its later segments are; otherwise its layer is the
  rank of that first segment.
\<close>

theorem import_layer_first_segment:
  "check_import root (root @ rel) R import_path vs =
     (case map_of LAYERS (lower (hd (split CHR ''.'' import_path))) of
        None \<Rightarrow> Inr vs
      | Some R' \<Rightarrow>
          Inr (if R < R' then vs @ [(path_str rel, get_layer_name R, get_layer_name R')]
               else vs))"
  by (auto simp: check_import_def is_project_import_def project_import_layer relative_to_append
           split: option.splits)

text \<open>
  The import \<open>myapp.infrastructure.db\<close> has the dotted segment \<open>infrastructure\<close>,
  which the vocabulary matching resolves to rank 2, and is still treated as external:
  a domain file importing it gets no violation.
\<close>

theorem external_despite_matching_segment:
  "get_import_layer ''myapp.infrastructure.db'' = Some 2
   \<and> \<not> is_project_import ''myapp.infrastructure.db''
   \<and> check_import [''src''] [''src'', ''domain'', ''a.py''] 0 ''myapp.infrastructure.db'' []
       = Inr []"
  by (simp add: check_import_def is_project_import_def get_import_layer_def LAYERS_def lower_def)

section \<open>Exit status\<close>

lemma structure_validate_flag:
  "structure_validate fs root_path = Inr (valid, issues) \<Longrightarrow> valid \<longleftrightarrow> issues = []"
  by (auto simp: structure_validate_def split: sum.splits)

lemma import_validate_flag:
  "fst (import_validate set_iter parse root_path py_files)
     \<longleftrightarrow> snd (import_validate set_iter parse root_path py_files) = []"
  by (simp add: import_validate_def Let_def)

lemma main_found:
  assumes "find_root fs argv1 = Some root_path"
  shows "main set_iter fs argv1 =
           (if path_exists fs root_path
               \<and> snd (import_validate set_iter (parse_file fs) root_path (rglob_py fs root_path)) = []
               \<and> structure_validate fs root_path = Inr (True, [])
            then 0 else 1)"
proof (cases "structure_validate fs root_path")
  case (Inl e)
  with assms show ?thesis by (simp add: main_def)
next
  case (Inr r)
  obtain valid issues where r: "r = (valid, issues)" by (cases r)
  from Inr r have v: "valid \<longleftrightarrow> issues = []" by (simp add: structure_validate_flag)
  from assms Inr r v show ?thesis
    by (simp add: main_def import_validate_flag Let_def)
qed

text \<open>
  C5. The exit status of \<open>main\<close> is 0 exactly when a root path is found and exists, the
  import validator ends with no violation, and the layer-structure validator returns
  with no issue; in every other case it is 1 (a missing root, a violation, an issue, or
  an exception of the structure validator that nothing catches).
\<close>

theorem exit_status:
  "main set_iter fs argv1 =
     (case find_root fs argv1 of
        None \<Rightarrow> 1
      | Some root_path \<Rightarrow>
          if path_exists fs root_path
             \<and> snd (import_validate set_iter (parse_file fs) root_path (rglob_py fs root_path)) = []
             \<and> structure_validate fs root_path = Inr (True, [])
          then 0 else 1)"
proof (cases "find_root fs argv1")
  case None
  then show ?thesis by (simp add: main_def)
next
  case (Some root_path)
  then show ?thesis by (simp add: main_found)
qed



section \<open>The use-case triad\<close>

lemma set_iteration_single:
  assumes "set_iteration set_iter"
  shows "set_iter [x] = [x]"
proof -
  have d: "distinct (set_iter [x])" and s: "set (set_iter [x]) = {x}"
    using assms by (simp_all add: set_iteration_def)
  show ?thesis
  proof (cases "set_iter [x]")
    case Nil
    with s show ?thesis by simp
  next
    case (Cons y ys)
    with s have y: "y = x" by auto
    from Cons d s y have "set ys \<subseteq> {x}" "x \<notin> set ys" by auto
    then have "ys = []" by (cases ys) auto
    with Cons y show ?thesis by simp
  qed
qed

text \<open>
  C4, as the code has it. The triad checker looks only at files whose base name holds
  \<open>use_case\<close>. The base name \<open>delete_task\<close> does not, so for
  \<open>application/use_cases/delete_task.py\<close> nothing is reported, whatever the file
  declares. For \<open>application/use_cases/delete_task_use_case.py\<close> declaring only the
  class \<open>DeleteTaskUseCase\<close>, exactly two issues are appended: the missing
  \<open>DeleteTaskRequest\<close>, then the missing \<open>DeleteTaskResponse\<close>.
\<close>

theorem delete_task_triad:
  assumes "set_iteration set_iter"
    and "parse [''application'', ''use_cases'', ''delete_task_use_case.py''] = Inr tree"
    and "get_class_names tree = [''DeleteTaskUseCase'']"
  shows "use_case_validate_file set_iter parse
           [''application'', ''use_cases'', ''delete_task.py''] issues = issues
         \<and> use_case_validate_file set_iter parse
             [''application'', ''use_cases'', ''delete_task_use_case.py''] issues =
           issues @
           [''application/use_cases/delete_task_use_case.py: UseCase '' @ [CHR 0x27]
              @ ''DeleteTaskUseCase'' @ [CHR 0x27] @ '' missing '' @ [CHR 0x27]
              @ ''DeleteTaskRequest'' @ [CHR 0x27] @ '' class'',
            ''application/use_cases/delete_task_use_case.py: UseCase '' @ [CHR 0x27]
              @ ''DeleteTaskUseCase'' @ [CHR 0x27] @ '' missing '' @ [CHR 0x27]
              @ ''DeleteTaskResponse'' @ [CHR 0x27] @ '' class'']"
proof -
  have skipped: "\<not> py_in ''use_case''
                   (lower (path_stem [''application'', ''use_cases'', ''delete_task.py'']))"
    by (simp add: path_stem_def path_name_def lower_def)
  have stem: "py_in ''use_case''
                (lower (path_stem [''application'', ''use_cases'', ''delete_task_use_case.py'']))"
    by (simp add: path_stem_def path_name_def lower_def)
  have app: "py_in ''application''
               (path_str [''application'', ''use_cases'', ''delete_task_use_case.py''])"
    by (simp add: path_str_def)
  have test: "\<not> py_in ''test''
                 (path_str [''application'', ''use_cases'', ''delete_task_use_case.py''])"
    by (simp add: path_str_def)
  have str: "path_str [''application'', ''use_cases'', ''delete_task_use_case.py'']
               = ''application/use_cases/delete_task_use_case.py''"
    by (simp add: path_str_def)
  have first: "use_case_validate_file set_iter parse
                 [''application'', ''use_cases'', ''delete_task.py''] issues = issues"
    using skipped by (simp add: use_case_validate_file_def)
  have second: "use_case_validate_file set_iter parse
                  [''application'', ''use_cases'', ''delete_task_use_case.py''] issues =
                issues @ use_case_issues
                           [''application'', ''use_cases'', ''delete_task_use_case.py'']
                           [''DeleteTaskUseCase''] [''DeleteTaskUseCase'']"
    using stem app test assms(2,3) set_iteration_single [OF assms(1)]
    by (simp add: use_case_validate_file_def check_use_case_pattern_def)
  show ?thesis
    unfolding first second by (simp add: str)
qed

lemma set_iteration_remdups: "set_iteration remdups"
  by (simp add: set_iteration_def)

lemma delete_task_class_names: "get_class_names delete_task_tree = [''DeleteTaskUseCase'']"
  by (simp add: get_class_names_def delete_task_tree_def walk_def)

theorem delete_task_triad_witness:
  "set_iteration (remdups :: string list \<Rightarrow> string list)
   \<and> get_class_names delete_task_tree = [''DeleteTaskUseCase'']
   \<and> use_case_validate_file remdups (\<lambda>p. Inr delete_task_tree)
       [''application'', ''use_cases'', ''delete_task.py''] [] = []
   \<and> length (use_case_validate_file remdups (\<lambda>p. Inr delete_task_tree)
               [''application'', ''use_cases'', ''delete_task_use_case.py''] []) = 2"
proof -
  have parsed: "(\<lambda>p. Inr delete_task_tree)
                  [''application'', ''use_cases'', ''delete_task_use_case.py'']
                = (Inr delete_task_tree :: error + node)"
    by simp
  show ?thesis
    using delete_task_triad [OF set_iteration_remdups parsed delete_task_class_names, of "[]"]
      set_iteration_remdups delete_task_class_names
    by simp
qed

text \<open>
  The file of the claim: \<open>application/use_cases/delete_task.py\<close> with the single
  class \<open>DeleteTaskUseCase\<close> gets no triad issue at all.
\<close>

theorem delete_task_no_issue:
  "use_case_validate_file remdups (\<lambda>p. Inr delete_task_tree)
     [''application'', ''use_cases'', ''delete_task.py''] [] = []"
  by (simp add: use_case_validate_file_def path_stem_def path_name_def lower_def)

section \<open>Test files\<close>

text \<open>
  The dependency rule, naming, encapsulation and use-case validators return at once
  for a file whose path holds \<open>test\<close>.
\<close>

lemma test_file_skipped:
  assumes "py_in ''test'' (path_str file_path)"
  shows "import_validate_file set_iter parse root_path file_path violations = violations"
    and "naming_validate_file parse file_path issues = issues"
    and "encapsulation_validate_file parse file_path issues = issues"
    and "use_case_validate_file set_iter parse file_path issues = issues"
  using assms
  by (simp_all add: import_validate_file_def naming_validate_file_def
        encapsulation_validate_file_def use_case_validate_file_def)

text \<open>
  C8. \<open>LayerContentValidator.validate_file\<close> has no such test: the path
  \<open>src/domain/test_controller.py\<close> holds \<open>test\<close>, and the file is classified into
  the domain layer and reported for the forbidden token \<open>controller\<close>.
\<close>

theorem layer_content_reports_test_file:
  "py_in ''test'' (path_str [''src'', ''domain'', ''test_controller.py''])
   \<and> layer_content_get_layer [''src'', ''domain'', ''test_controller.py''] = Some ''domain''
   \<and> layer_content_validate_file [''src'', ''domain'', ''test_controller.py''] [] =
       [''src/domain/test_controller.py: File '' @ [CHR 0x27] @ ''test_controller.py''
          @ [CHR 0x27] @ '' contains '' @ [CHR 0x27] @ ''controller'' @ [CHR 0x27]
          @ '' which shouldn'' @ [CHR 0x27] @ ''t be in domain layer'']"
proof -
  have t: "py_in ''test'' (path_str [''src'', ''domain'', ''test_controller.py''])"
    by (simp add: path_str_def)
  have l: "layer_content_get_layer [''src'', ''domain'', ''test_controller.py''] = Some ''domain''"
    by (simp add: lower_def)
  have v: "layer_content_validate_file [''src'', ''domain'', ''test_controller.py''] [] =
             forbidden_issues [''src'', ''domain'', ''test_controller.py''] ''domain''
               ''test_controller''
               [''controller'', ''router'', ''endpoint'', ''api'',
                ''database'', ''sql'', ''orm'', ''http'', ''request'', ''response'']"
    by (simp add: layer_content_validate_file_def lower_def path_stem_def path_name_def
          PATTERNS_forbidden_def)
  show ?thesis
    unfolding v using t l by (simp add: path_str_def path_name_def)
qed

section \<open>Exempt classes\<close>

text \<open>
  \<open>_check_property_usage\<close> never appends an issue: the only \<open>append\<close> stands behind
  \<open>file_path.lower()\<close>, which raises.
\<close>

lemma check_property_usage_nodes_issues:
  "snd (check_property_usage_nodes file_path nodes issues) = issues"
  by (induction file_path nodes issues rule: check_property_usage_nodes.induct)
     (simp_all add: path_lower_def Let_def)

lemma encapsulation_validate_file_issues:
  "encapsulation_validate_file parse file_path issues =
     (if (py_in ''domain'' (path_str file_path) \<or> py_in ''application'' (path_str file_path))
         \<and> \<not> py_in ''test'' (path_str file_path)
      then (case parse file_path of
              Inl e \<Rightarrow> issues
            | Inr tree \<Rightarrow> issues @ concat (map (class_public_attributes file_path) (walk tree)))
      else issues)"
  by (simp add: encapsulation_validate_file_def check_property_usage_def
        check_property_usage_nodes_issues check_public_attributes_def split: sum.splits)

text \<open>
  C9. For an exempt class (a base \<open>Protocol\<close> or \<open>BaseModel\<close>, or the decorator
  \<open>dataclass\<close>, called or not), the public-attribute check appends nothing, and the
  property check appends nothing either: with or without the class among the nodes it
  visits, it leaves the issues as they were.
\<close>

theorem exempt_class_skipped:
  assumes "is_protocol_or_dataclass node"
  shows "class_public_attributes file_path node = []
         \<and> snd (check_property_usage_nodes file_path (node # nodes) issues) = issues
         \<and> snd (check_property_usage_nodes file_path nodes issues) = issues"
  using assms
  by (cases node) (simp_all only: check_property_usage_nodes_issues
        class_public_attributes.simps is_protocol_or_dataclass.simps if_True simp_thms)

theorem exempt_class_skipped_witness:
  "is_protocol_or_dataclass
     (ClassDef ''User'' [] [Call (Name ''dataclass'')]
        [AnnAssign (Name ''name''),
         FunctionDef ''__init__'' [] [Assign [Attribute (Name ''self'') ''_name'']]])
   \<and> class_public_attributes [''src'', ''domain'', ''entity.py'']
       (ClassDef ''User'' [] [Call (Name ''dataclass'')]
          [AnnAssign (Name ''name''),
           FunctionDef ''__init__'' [] [Assign [Attribute (Name ''self'') ''_name'']]]) = []
   \<and> class_public_attributes [''src'', ''domain'', ''entity.py'']
       (ClassDef ''User'' [] []
          [AnnAssign (Name ''name''),
           FunctionDef ''__init__'' [] [Assign [Attribute (Name ''self'') ''_name'']]]) \<noteq> []
   \<and> snd (check_property_usage_nodes [''src'', ''domain'', ''entity.py'']
            [ClassDef ''User'' [] [Call (Name ''dataclass'')]
               [AnnAssign (Name ''name''),
                FunctionDef ''__init__'' [] [Assign [Attribute (Name ''self'') ''_name'']]]]
            []) = []"
proof -
  have e: "is_protocol_or_dataclass
             (ClassDef ''User'' [] [Call (Name ''dataclass'')]
                [AnnAssign (Name ''name''),
                 FunctionDef ''__init__'' [] [Assign [Attribute (Name ''self'') ''_name'']]])"
    by simp
  have u: "''name'' \<noteq> upper ''name''"
    by (simp add: upper_def is_lower_char_def)
  show ?thesis
    using e exempt_class_skipped [OF e, of "[''src'', ''domain'', ''entity.py'']" "[]" "[]"] u
    by (simp add: startswith_def)
qed

section \<open>The violations of one file\<close>

lemma check_import_new:
  "check_import root (root @ rel) R import_path vs = Inr (vs @ new_violations rel R import_path)"
  by (simp add: new_violations_def check_import_def relative_to_append relative_to_def
           split: option.splits)

lemma length_new_violations: "length (new_violations rel R import_path) \<le> 1"
  by (simp add: new_violations_def check_import_def relative_to_def split: option.splits)

lemma check_imports_new:
  "check_imports root (root @ rel) R import_paths vs =
     (None, vs @ concat (map (new_violations rel R) import_paths))"
  by (induction import_paths arbitrary: vs) (simp_all add: check_import_new)

lemma get_layer_append: "get_layer root (root @ rel) = Inr (get_layer_parts rel)"
  by (simp add: get_layer_def relative_to_append)

lemma import_validate_file_under_root:
  "import_validate_file set_iter parse root (root @ rel) vs =
     vs @ (if py_in ''__pycache__'' (path_str (root @ rel)) \<or> py_in ''test'' (path_str (root @ rel))
           then []
           else case parse (root @ rel) of
                  Inl e \<Rightarrow> []
                | Inr tree \<Rightarrow>
                    (case get_layer_parts rel of
                       None \<Rightarrow> []
                     | Some R \<Rightarrow> concat (map (new_violations rel R)
                                           (set_iter (extract_imports tree)))))"
  by (simp add: import_validate_file_def get_layer_append check_imports_new
           split: sum.splits option.splits)

lemma import_validate_file_outside:
  "\<not> prefix root file_path \<Longrightarrow> import_validate_file set_iter parse root file_path vs = vs"
  by (simp add: import_validate_file_def get_layer_def relative_to_def split: sum.splits)

lemma import_validate_file_append:
  "import_validate_file set_iter parse root file_path vs =
     vs @ import_validate_file set_iter parse root file_path []"
proof (cases "prefix root file_path")
  case True
  then obtain rel where "file_path = root @ rel" by (auto elim: prefixE)
  then show ?thesis
    by (simp add: import_validate_file_under_root [of _ _ _ _ vs]
          import_validate_file_under_root [of _ _ _ _ "[]"])
next
  case False
  then show ?thesis by (simp add: import_validate_file_outside)
qed

lemma import_validate_files_concat:
  "import_validate_files set_iter parse root py_files vs =
     vs @ concat (map (\<lambda>py_file. import_validate_file set_iter parse root py_file []) py_files)"
proof (induction py_files arbitrary: vs)
  case Nil
  show ?case by simp
next
  case (Cons py_file py_files)
  show ?case
    by (simp add: Cons.IH import_validate_file_append [of _ _ _ _ vs])
qed

lemma length_concat_at_most_one:
  assumes "\<And>x. length (f x) \<le> 1" and "distinct xs"
  shows "length (concat (map f xs)) = card {x \<in> set xs. f x \<noteq> []}"
  using assms(2)
proof (induction xs)
  case Nil
  show ?case by simp
next
  case (Cons x xs)
  have fin: "finite {y \<in> set xs. f y \<noteq> []}" by simp
  have notin: "x \<notin> {y \<in> set xs. f y \<noteq> []}" using Cons.prems by simp
  show ?case
  proof (cases "f x = []")
    case True
    then have "{y \<in> set (x # xs). f y \<noteq> []} = {y \<in> set xs. f y \<noteq> []}" by auto
    with True Cons show ?thesis by simp
  next
    case False
    then have "{y \<in> set (x # xs). f y \<noteq> []} = insert x {y \<in> set xs. f y \<noteq> []}" by auto
    moreover from False assms(1) [of x] have "length (f x) = 1" by (cases "f x") auto
    ultimately show ?thesis using Cons fin notin by simp
  qed
qed

lemma set_iteration_reversed: "set_iteration reversed_iter"
  by (simp add: set_iteration_def reversed_iter_def)

text \<open>
  C10. For a file that is checked (not skipped, parsed, of layer rank \<open>R\<close>), the number
  of violations appended is the number of distinct imported module paths for which
  \<open>_check_import\<close> reports one: a module imported by several statements counts once.
\<close>

theorem one_violation_per_module:
  assumes "set_iteration set_iter"
    and "\<not> py_in ''__pycache__'' (path_str (root @ rel))"
    and "\<not> py_in ''test'' (path_str (root @ rel))"
    and "parse (root @ rel) = Inr tree"
    and "get_layer root (root @ rel) = Inr (Some R)"
  shows "\<exists>new. import_validate_file set_iter parse root (root @ rel) vs = vs @ new
           \<and> length new = card {import_path \<in> set (extract_imports tree).
                                  check_import root (root @ rel) R import_path [] \<noteq> Inr []}"
proof -
  let ?imports = "set_iter (extract_imports tree)"
  let ?new = "concat (map (new_violations rel R) ?imports)"
  from assms(5) have layer: "get_layer_parts rel = Some R"
    by (simp add: get_layer_append)
  have appended: "import_validate_file set_iter parse root (root @ rel) vs = vs @ ?new"
    using assms(2-4) layer by (simp add: import_validate_file_under_root)
  have d: "distinct ?imports" and s: "set ?imports = set (extract_imports tree)"
    using assms(1) by (simp_all add: set_iteration_def)
  have "length ?new = card {import_path \<in> set ?imports. new_violations rel R import_path \<noteq> []}"
    using length_new_violations d by (rule length_concat_at_most_one)
  also have "\<dots> = card {import_path \<in> set (extract_imports tree).
                         check_import root (root @ rel) R import_path [] \<noteq> Inr []}"
    by (simp add: s check_import_new)
  finally show ?thesis using appended by blast
qed

lemma repeated_import_extracted:
  "extract_imports repeated_import_tree = [''infrastructure.db'', ''infrastructure.db'', ''os'']"
  by (simp add: extract_imports_def repeated_import_tree_def walk_def)

theorem one_violation_per_module_witness:
  "set_iteration (remdups :: string list \<Rightarrow> string list)
   \<and> \<not> py_in ''__pycache__'' (path_str ([''src''] @ [''domain'', ''a.py'']))
   \<and> \<not> py_in ''test'' (path_str ([''src''] @ [''domain'', ''a.py'']))
   \<and> get_layer [''src''] ([''src''] @ [''domain'', ''a.py'']) = Inr (Some 0)
   \<and> extract_imports repeated_import_tree = [''infrastructure.db'', ''infrastructure.db'', ''os'']
   \<and> (\<exists>new. import_validate_file remdups (\<lambda>p. Inr repeated_import_tree) [''src'']
                ([''src''] @ [''domain'', ''a.py'']) [] = [] @ new
             \<and> length new =
                 card {import_path \<in> set (extract_imports repeated_import_tree).
                       check_import [''src''] ([''src''] @ [''domain'', ''a.py'']) 0 import_path []
                         \<noteq> Inr []})"
proof -
  have c: "\<not> py_in ''__pycache__'' (path_str ([''src''] @ [''domain'', ''a.py'']))"
    by (simp add: path_str_def)
  have t: "\<not> py_in ''test'' (path_str ([''src''] @ [''domain'', ''a.py'']))"
    by (simp add: path_str_def)
  have p: "(\<lambda>p. Inr repeated_import_tree) ([''src''] @ [''domain'', ''a.py''])
             = (Inr repeated_import_tree :: error + node)"
    by simp
  have l: "get_layer [''src''] ([''src''] @ [''domain'', ''a.py'']) = Inr (Some 0)"
    by (simp add: get_layer_def relative_to_def LAYERS_def lower_def)
  show ?thesis
    using one_violation_per_module [OF set_iteration_remdups c t p l, of "[]"]
      set_iteration_remdups c t l repeated_import_extracted
    by blast
qed

section \<open>Order of the violations\<close>

lemma mset_concat_map_iteration:
  assumes "distinct xs" and "distinct ys" and "set xs = set ys"
  shows "mset (concat (map f xs)) = mset (concat (map f ys))"
proof -
  have sum: "mset (concat (map f zs)) = (\<Sum>z\<in>#mset zs. mset (f z))" for zs :: "'a list"
    by (induction zs) simp_all
  from assms have "mset xs = mset ys"
    by (simp add: set_eq_iff_mset_eq_distinct)
  then show ?thesis by (simp add: sum)
qed

lemma import_validate_file_mset:
  assumes "set_iteration it1" and "set_iteration it2"
  shows "mset (import_validate_file it1 parse root file_path []) =
         mset (import_validate_file it2 parse root file_path [])"
proof (cases "prefix root file_path")
  case True
  then obtain rel where rel: "file_path = root @ rel" by (auto elim: prefixE)
  have same: "mset (concat (map g (it1 xs))) = mset (concat (map g (it2 xs)))"
    for g :: "string \<Rightarrow> violation list" and xs
    using assms by (intro mset_concat_map_iteration) (simp_all add: set_iteration_def)
  show ?thesis
    unfolding rel import_validate_file_under_root
    by (simp add: same split: sum.splits option.splits)
next
  case False
  then show ?thesis by (simp add: import_validate_file_outside)
qed

text \<open>
  C7, as the code has it. The list of violations of a run is the concatenation of the
  violations of each file, file after file in discovery order. For every file, two runs
  give the same violations up to their order within the file, whatever the orders in
  which the two runs iterate over the set of its imports.
\<close>

theorem violations_by_file_up_to_order:
  assumes "set_iteration it1" and "set_iteration it2"
  shows "snd (import_validate it1 parse root py_files) =
           concat (map (\<lambda>py_file. import_validate_file it1 parse root py_file []) py_files)
         \<and> mset (import_validate_file it1 parse root file_path []) =
             mset (import_validate_file it2 parse root file_path [])"
  using import_validate_file_mset [OF assms]
  by (simp add: import_validate_def Let_def import_validate_files_concat)

lemma two_imports_extracted:
  "extract_imports two_imports_tree = [''application.x'', ''infrastructure.y'']"
  by (simp add: extract_imports_def two_imports_tree_def walk_def)

lemma domain_file_violations:
  "import_validate_file set_iter (\<lambda>p. Inr two_imports_tree) [''src'']
     [''src'', ''domain'', ''a.py''] [] =
   concat (map (new_violations [''domain'', ''a.py''] 0)
             (set_iter [''application.x'', ''infrastructure.y'']))"
proof -
  have skip: "(py_in ''__pycache__'' (path_str ([''src''] @ [''domain'', ''a.py'']))
                 \<or> py_in ''test'' (path_str ([''src''] @ [''domain'', ''a.py'']))) = False"
    by (simp add: path_str_def)
  have layer: "get_layer_parts [''domain'', ''a.py''] = Some 0"
    by (simp add: LAYERS_def lower_def)
  have "import_validate_file set_iter (\<lambda>p. Inr two_imports_tree) [''src'']
          ([''src''] @ [''domain'', ''a.py'']) [] =
        concat (map (new_violations [''domain'', ''a.py''] 0)
                  (set_iter (extract_imports two_imports_tree)))"
    by (simp only: import_validate_file_under_root skip layer if_False sum.case option.case
          append_Nil)
  then show ?thesis
    by (simp add: two_imports_extracted)
qed

lemma two_new_violations:
  "new_violations [''domain'', ''a.py''] 0 ''application.x''
     = [(''domain/a.py'', ''domain'', ''application'')]"
  "new_violations [''domain'', ''a.py''] 0 ''infrastructure.y''
     = [(''domain/a.py'', ''domain'', ''infrastructure'')]"
  by (simp_all add: new_violations_def check_import_def is_project_import_def
        get_import_layer_def relative_to_def LAYERS_def lower_def path_str_def get_layer_name_def)

theorem violations_by_file_up_to_order_witness:
  "set_iteration (remdups :: string list \<Rightarrow> string list) \<and> set_iteration reversed_iter
   \<and> snd (import_validate remdups (\<lambda>p. Inr two_imports_tree) [''src'']
            [[''src'', ''domain'', ''a.py'']]) =
       concat (map (\<lambda>py_file. import_validate_file remdups (\<lambda>p. Inr two_imports_tree)
                                 [''src''] py_file [])
                 [[''src'', ''domain'', ''a.py'']])
   \<and> mset (import_validate_file remdups (\<lambda>p. Inr two_imports_tree) [''src'']
             [''src'', ''domain'', ''a.py''] []) =
       mset (import_validate_file reversed_iter (\<lambda>p. Inr two_imports_tree) [''src'']
               [''src'', ''domain'', ''a.py''] [])"
  using violations_by_file_up_to_order [OF set_iteration_remdups set_iteration_reversed]
    set_iteration_remdups set_iteration_reversed
  by blast

text \<open>
  A domain file imports \<open>application.x\<close>, then \<open>infrastructure.y\<close>. Iterated in the
  order of insertion, the set of imports gives the violation for \<open>application\<close> first;
  iterated the other way round, it gives the violation for \<open>infrastructure\<close> first.
  Both are iteration orders of the same set, so the list of violations is not fixed by
  the input, and it need not follow the order in which the imports were found.
\<close>

theorem violation_order_not_fixed:
  "set_iteration (remdups :: string list \<Rightarrow> string list) \<and> set_iteration reversed_iter
   \<and> extract_imports two_imports_tree = [''application.x'', ''infrastructure.y'']
   \<and> snd (import_validate remdups (\<lambda>p. Inr two_imports_tree) [''src'']
            [[''src'', ''domain'', ''a.py'']]) =
       [(''domain/a.py'', ''domain'', ''application''),
        (''domain/a.py'', ''domain'', ''infrastructure'')]
   \<and> snd (import_validate reversed_iter (\<lambda>p. Inr two_imports_tree) [''src'']
            [[''src'', ''domain'', ''a.py'']]) =
       [(''domain/a.py'', ''domain'', ''infrastructure''),
        (''domain/a.py'', ''domain'', ''application'')]"
  by (simp add: set_iteration_remdups set_iteration_reversed two_imports_extracted
        import_validate_def domain_file_violations two_new_violations reversed_iter_def)

section \<open>Substrings of paths\<close>

lemma py_in_sublist: "py_in sub s \<longleftrightarrow> sublist sub s"
  by (induction s) (simp_all add: sublist_Cons_right)

lemma prefix_before_separator:
  assumes "c \<notin> set xs" and "prefix xs (c # b)"
  shows "xs = []"
  using assms by (cases xs) auto

lemma sublist_across:
  assumes "c \<notin> set sub"
  shows "sublist sub (a @ c # b) \<longleftrightarrow> sublist sub a \<or> sublist sub b"
proof
  assume "sublist sub (a @ c # b)"
  then consider "sublist sub a" | "sublist sub (c # b)"
    | x1 x2 where "sub = x1 @ x2" "suffix x1 a" "prefix x2 (c # b)"
    by (auto simp: sublist_append)
  then show "sublist sub a \<or> sublist sub b"
  proof cases
    case 1
    then show ?thesis by simp
  next
    case 2
    then have "prefix sub (c # b) \<or> sublist sub b" by (simp add: sublist_Cons_right)
    then show ?thesis
    proof
      assume "prefix sub (c # b)"
      with assms have "sub = []" by (rule prefix_before_separator)
      then show ?thesis by simp
    qed simp
  next
    case 3
    from assms 3(1) have "c \<notin> set x2" by simp
    from this 3(3) have "x2 = []" by (rule prefix_before_separator)
    with 3(1,2) have "suffix sub a" by simp
    then show ?thesis by (auto simp: suffix_imp_sublist)
  qed
next
  assume "sublist sub a \<or> sublist sub b"
  then show "sublist sub (a @ c # b)"
    by (auto simp: sublist_append sublist_Cons_right)
qed

lemma py_in_join:
  assumes "c \<notin> set sub" and "sub \<noteq> []"
  shows "py_in sub (join [c] ps) \<longleftrightarrow> (\<exists>p\<in>set ps. py_in sub p)"
proof (induction ps)
  case Nil
  from assms(2) show ?case by simp
next
  case (Cons p ps)
  show ?case
  proof (cases ps)
    case Nil
    then show ?thesis by simp
  next
    case (Cons q qs)
    have "py_in sub (join [c] (p # q # qs)) \<longleftrightarrow> py_in sub p \<or> py_in sub (join [c] (q # qs))"
      using assms(1) by (simp add: py_in_sublist sublist_across)
    with Cons Cons.IH show ?thesis by simp
  qed
qed

lemma py_in_path_str:
  assumes "CHR ''/'' \<notin> set sub" and "sub \<noteq> []" and "ps \<noteq> []"
  shows "py_in sub (path_str ps) \<longleftrightarrow> (\<exists>p\<in>set ps. py_in sub p)"
proof (cases ps)
  case Nil
  with assms(3) show ?thesis by simp
next
  case (Cons p rest)
  show ?thesis
  proof (cases "p = ''/''")
    case True
    have root: "\<not> py_in sub ''/''"
      using assms(1,2) by (cases sub) auto
    have "py_in sub (''/'' @ join ''/'' rest) \<longleftrightarrow> py_in sub (join ''/'' rest)"
      using assms(1,2) sublist_across [of "CHR ''/''" sub "[]" "join ''/'' rest"]
      by (simp add: py_in_sublist)
    with Cons True root show ?thesis
      using py_in_join [OF assms(1,2), of rest] by (simp add: path_str_def)
  next
    case False
    with Cons show ?thesis
      using py_in_join [OF assms(1,2), of ps] by (simp add: path_str_def)
  qed
qed

text \<open>
  Whether a path holds a token that occurs neither in \<open>entities\<close> nor in \<open>domain\<close>
  does not depend on which of the two names a segment has.
\<close>

lemma py_in_synonym:
  assumes "CHR ''/'' \<notin> set sub" and "sub \<noteq> []"
    and "\<not> py_in sub ''entities''" and "\<not> py_in sub ''domain''"
  shows "py_in sub (path_str (a @ ''entities'' # b)) = py_in sub (path_str (a @ ''domain'' # b))"
  using assms(3,4)
  by (simp add: py_in_path_str [OF assms(1,2)])

lemma tokens_synonym:
  "py_in ''test'' (path_str (a @ ''entities'' # b)) = py_in ''test'' (path_str (a @ ''domain'' # b))"
  "py_in ''__pycache__'' (path_str (a @ ''entities'' # b))
     = py_in ''__pycache__'' (path_str (a @ ''domain'' # b))"
  "py_in ''application'' (path_str (a @ ''entities'' # b))
     = py_in ''application'' (path_str (a @ ''domain'' # b))"
  by (rule py_in_synonym; simp)+

lemma get_layer_parts_synonym:
  "get_layer_parts (pre @ ''entities'' # post) = get_layer_parts (pre @ ''domain'' # post)"
proof (induction pre)
  case Nil
  show ?case by (simp add: LAYERS_def lower_def)
next
  case (Cons part pre)
  then show ?case by (simp split: option.splits)
qed

lemma stem_synonym:
  "py_in ''use_case'' (lower (path_stem (a @ ''entities'' # b)))
     = py_in ''use_case'' (lower (path_stem (a @ ''domain'' # b)))"
proof (cases b)
  case Nil
  have "path_name (a @ [''entities'']) = ''entities''" "path_name (a @ [''domain'']) = ''domain''"
    by (simp_all add: path_name_def)
  with Nil show ?thesis by (simp add: path_stem_def lower_def)
next
  case (Cons p ps)
  then have "path_name (a @ ''entities'' # b) = path_name (a @ ''domain'' # b)"
    by (simp add: path_name_def)
  then show ?thesis by (simp add: path_stem_def)
qed

section \<open>Synonyms of the domain layer\<close>

lemma new_violations_path:
  "new_violations rel R import_path =
     map (\<lambda>v. (path_str rel, snd v)) (new_violations rel' R import_path)"
  by (simp add: new_violations_def check_import_def relative_to_def split: option.splits)

lemma class_naming_retarget:
  "class_naming_issues new_path n = map (retarget new_path old_path) (class_naming_issues old_path n)"
  by (cases n) (simp_all add: retarget_def)

lemma function_naming_retarget:
  "function_naming_issues new_path n =
     map (retarget new_path old_path) (function_naming_issues old_path n)"
  by (cases n) (simp_all add: retarget_def)

lemma target_naming_retarget:
  "target_naming_issues new_path e = map (retarget new_path old_path) (target_naming_issues old_path e)"
  by (cases e) (simp_all add: retarget_def)

lemma constant_naming_retarget:
  "constant_naming_issues new_path n =
     map (retarget new_path old_path) (constant_naming_issues old_path n)"
proof (cases n)
  case (Assign targets)
  have "concat (map (target_naming_issues new_path) targets) =
          map (retarget new_path old_path) (concat (map (target_naming_issues old_path) targets))"
    by (induction targets) (simp_all add: target_naming_retarget [of new_path _ old_path])
  with Assign show ?thesis by simp
qed simp_all

lemma concat_retarget:
  assumes "\<And>n. f new_path n = map (retarget new_path old_path) (f old_path n)"
  shows "concat (map (f new_path) ns) = map (retarget new_path old_path) (concat (map (f old_path) ns))"
  by (induction ns) (simp_all add: assms)

lemma naming_issues_retarget:
  "check_constants tree new_path (check_functions tree new_path (check_classes tree new_path [])) =
     map (retarget new_path old_path)
       (check_constants tree old_path (check_functions tree old_path (check_classes tree old_path [])))"
proof -
  have cls: "concat (map (class_naming_issues new_path) ns) =
      map (retarget new_path old_path) (concat (map (class_naming_issues old_path) ns))" for ns
    by (rule concat_retarget) (rule class_naming_retarget)
  have funs: "concat (map (function_naming_issues new_path) ns) =
      map (retarget new_path old_path) (concat (map (function_naming_issues old_path) ns))" for ns
    by (rule concat_retarget) (rule function_naming_retarget)
  have consts_eq: "concat (map (constant_naming_issues new_path) ns) =
      map (retarget new_path old_path) (concat (map (constant_naming_issues old_path) ns))" for ns
    by (rule concat_retarget) (rule constant_naming_retarget)
  show ?thesis
    by (simp add: check_constants_def check_functions_def check_classes_def
          cls funs consts_eq)
qed

lemma use_case_issues_retarget:
  "use_case_issues new_path classes use_case_classes =
     map (retarget new_path old_path) (use_case_issues old_path classes use_case_classes)"
  by (induction use_case_classes) (simp_all add: Let_def retarget_def)

text \<open>
  C3, as the code has it. Take two files with the same content whose paths differ in
  one segment only, \<open>entities\<close> in the one and \<open>domain\<close> in the other. The dependency
  rule checker classifies both into the same layer and reports the same violations but
  for the path; the naming checker and the use-case triad checker report the same
  issues but for the path at their head.
\<close>

theorem synonym_equivalence:
  assumes "parse (root @ pre @ ''entities'' # post) = parse (root @ pre @ ''domain'' # post)"
  shows "get_layer root (root @ pre @ ''entities'' # post)
           = get_layer root (root @ pre @ ''domain'' # post)
         \<and> import_validate_file set_iter parse root (root @ pre @ ''entities'' # post) [] =
             map (\<lambda>v. (path_str (pre @ ''entities'' # post), snd v))
               (import_validate_file set_iter parse root (root @ pre @ ''domain'' # post) [])
         \<and> naming_validate_file parse (root @ pre @ ''entities'' # post) [] =
             map (retarget (root @ pre @ ''entities'' # post) (root @ pre @ ''domain'' # post))
               (naming_validate_file parse (root @ pre @ ''domain'' # post) [])
         \<and> use_case_validate_file set_iter parse (root @ pre @ ''entities'' # post) [] =
             map (retarget (root @ pre @ ''entities'' # post) (root @ pre @ ''domain'' # post))
               (use_case_validate_file set_iter parse (root @ pre @ ''domain'' # post) [])"
proof (intro conjI)
  let ?e = "root @ pre @ ''entities'' # post" and ?d = "root @ pre @ ''domain'' # post"
  have tok: "py_in ''test'' (path_str ?e) = py_in ''test'' (path_str ?d)"
    "py_in ''__pycache__'' (path_str ?e) = py_in ''__pycache__'' (path_str ?d)"
    "py_in ''application'' (path_str ?e) = py_in ''application'' (path_str ?d)"
    using tokens_synonym [of "root @ pre" post] by simp_all
  have stem: "py_in ''use_case'' (lower (path_stem ?e)) = py_in ''use_case'' (lower (path_stem ?d))"
    using stem_synonym [of "root @ pre" post] by simp
  show "get_layer root ?e = get_layer root ?d"
    by (simp add: get_layer_append get_layer_parts_synonym)
  have paths: "concat (map (new_violations (pre @ ''entities'' # post) R) xs) =
                 map (\<lambda>v. (path_str (pre @ ''entities'' # post), snd v))
                   (concat (map (new_violations (pre @ ''domain'' # post) R) xs))" for R xs
    by (induction xs)
       (simp_all add: new_violations_path [of "pre @ ''entities'' # post" _ _ "pre @ ''domain'' # post"])
  show "import_validate_file set_iter parse root ?e [] =
          map (\<lambda>v. (path_str (pre @ ''entities'' # post), snd v))
            (import_validate_file set_iter parse root ?d [])"
    by (simp add: import_validate_file_under_root tok assms get_layer_parts_synonym paths
          split: sum.splits option.splits)
  show "naming_validate_file parse ?e [] = map (retarget ?e ?d) (naming_validate_file parse ?d [])"
    by (simp add: naming_validate_file_def tok assms naming_issues_retarget [of _ ?e ?d]
          split: sum.splits)
  show "use_case_validate_file set_iter parse ?e [] =
          map (retarget ?e ?d) (use_case_validate_file set_iter parse ?d [])"
    by (simp add: use_case_validate_file_def tok stem assms check_use_case_pattern_def
          use_case_issues_retarget [of ?e _ _ ?d] split: sum.splits)
qed

theorem synonym_equivalence_witness:
  "(\<lambda>p. Inr outward_import_tree) ([''src''] @ [] @ ''entities'' # [''user.py''])
     = ((\<lambda>p. Inr outward_import_tree) ([''src''] @ [] @ ''domain'' # [''user.py'']) :: error + node)
   \<and> get_layer [''src''] [''src'', ''entities'', ''user.py'']
       = get_layer [''src''] [''src'', ''domain'', ''user.py'']
   \<and> import_validate_file remdups (\<lambda>p. Inr outward_import_tree) [''src'']
       [''src'', ''entities'', ''user.py''] [] =
       map (\<lambda>v. (path_str [''entities'', ''user.py''], snd v))
         (import_validate_file remdups (\<lambda>p. Inr outward_import_tree) [''src'']
            [''src'', ''domain'', ''user.py''] [])
   \<and> naming_validate_file (\<lambda>p. Inr outward_import_tree) [''src'', ''entities'', ''user.py''] [] =
       map (retarget [''src'', ''entities'', ''user.py''] [''src'', ''domain'', ''user.py''])
         (naming_validate_file (\<lambda>p. Inr outward_import_tree) [''src'', ''domain'', ''user.py''] [])
   \<and> use_case_validate_file remdups (\<lambda>p. Inr outward_import_tree)
       [''src'', ''entities'', ''user.py''] [] =
       map (retarget [''src'', ''entities'', ''user.py''] [''src'', ''domain'', ''user.py''])
         (use_case_validate_file remdups (\<lambda>p. Inr outward_import_tree)
            [''src'', ''domain'', ''user.py''] [])"
  using synonym_equivalence
          [where parse = "\<lambda>p. Inr outward_import_tree" and root = "[''src'']" and pre = "[]"
             and post = "[''user.py'']" and set_iter = remdups]
  by simp

text \<open>
  The same two files before the encapsulation checker and the layer content checker,
  which look for \<open>domain\<close> and do not know \<open>entities\<close>: under \<open>domain\<close> the public
  attribute and the forbidden token \<open>http\<close> are reported, under \<open>entities\<close> nothing is.
\<close>

theorem synonym_not_recognised:
  "encapsulation_validate_file (\<lambda>p. Inr public_attribute_tree)
     [''src'', ''entities'', ''user.py''] [] = []
   \<and> encapsulation_validate_file (\<lambda>p. Inr public_attribute_tree)
       [''src'', ''domain'', ''user.py''] [] =
       [''src/domain/user.py: Class '' @ [CHR 0x27] @ ''User'' @ [CHR 0x27]
          @ '' has public attribute '' @ [CHR 0x27] @ ''name'' @ [CHR 0x27]
          @ ''. Consider making it private with underscore prefix.'']
   \<and> layer_content_get_layer [''src'', ''entities'', ''http_client.py''] = None
   \<and> layer_content_get_layer [''src'', ''domain'', ''http_client.py''] = Some ''domain''
   \<and> layer_content_validate_file [''src'', ''entities'', ''http_client.py''] [] = []
   \<and> layer_content_validate_file [''src'', ''domain'', ''http_client.py''] [] \<noteq> []"
proof (intro conjI)
  show "encapsulation_validate_file (\<lambda>p. Inr public_attribute_tree)
          [''src'', ''entities'', ''user.py''] [] = []"
    by (simp add: encapsulation_validate_file_issues path_str_def)
  have u: "upper ''name'' \<noteq> ''name''"
    by (simp add: upper_def is_lower_char_def)
  have d: "py_in ''domain'' (path_str [''src'', ''domain'', ''user.py''])"
    "\<not> py_in ''test'' (path_str [''src'', ''domain'', ''user.py''])"
    by (simp_all add: path_str_def)
  have s: "path_str [''src'', ''domain'', ''user.py''] = ''src/domain/user.py''"
    by (simp add: path_str_def)
  show "encapsulation_validate_file (\<lambda>p. Inr public_attribute_tree)
          [''src'', ''domain'', ''user.py''] [] =
        [''src/domain/user.py: Class '' @ [CHR 0x27] @ ''User'' @ [CHR 0x27]
           @ '' has public attribute '' @ [CHR 0x27] @ ''name'' @ [CHR 0x27]
           @ ''. Consider making it private with underscore prefix.'']"
    using u by (simp add: encapsulation_validate_file_issues d s public_attribute_tree_def
                  walk_def startswith_def)
  show "layer_content_get_layer [''src'', ''entities'', ''http_client.py''] = None"
    by (simp add: lower_def)
  show l: "layer_content_get_layer [''src'', ''domain'', ''http_client.py''] = Some ''domain''"
    by (simp add: lower_def)
  show "layer_content_validate_file [''src'', ''entities'', ''http_client.py''] [] = []"
    by (simp add: layer_content_validate_file_def lower_def)
  show "layer_content_validate_file [''src'', ''domain'', ''http_client.py''] [] \<noteq> []"
    by (simp add: layer_content_validate_file_def lower_def path_stem_def path_name_def
          PATTERNS_forbidden_def)
qed

end
